theory Spec2Isabelle
  imports Main "HOL-Library.Word"
begin

section \<open>Data model of the video reader bindings\<close>

text \<open>
  The C++ scalar types of \<^verbatim>\<open>video_reader.h\<close>. A C++ \<^verbatim>\<open>int\<close> is a 32-bit word read
  as two's complement (\<open>sint\<close>). A product of two \<^verbatim>\<open>int\<close>s that leaves the range of
  \<^verbatim>\<open>int\<close> is undefined in C++; the model gives it the wrapped 32-bit result, which is what
  the compiled multiplication \<^verbatim>\<open>frame.width * 3\<close> yields.
  A \<^verbatim>\<open>double\<close> is carried as its 64-bit pattern: the code modelled here stores and
  returns doubles and never computes with them.
\<close>

type_synonym uint8_t = "8 word"
type_synonym c_int = "32 word"
type_synonym int64_t = "64 word"
type_synonym double = "64 word"

text \<open>\<^verbatim>\<open>struct VideoMetadata\<close> (video_reader.h, lines 21-33).\<close>

record VideoMetadata =
  width :: c_int
  height :: c_int
  fps :: double
  frame_count :: int64_t
  duration :: double
  codec :: string
  bit_rate :: "int64_t option"
  color_space :: "string option"
  bit_depth :: "c_int option"
  has_audio :: bool
  timecode :: "string option"

text \<open>\<^verbatim>\<open>struct Frame\<close> (video_reader.h, lines 38-45); \<open>data\<close> is the RGB24 byte vector.\<close>

record Frame =
  index :: c_int
  pts :: int64_t
  dts :: "int64_t option"
  data :: "uint8_t list"
  width :: c_int
  height :: c_int

subsection \<open>The array handed to the caller\<close>

text \<open>
  A three-dimensional \<^verbatim>\<open>py::array_t<uint8_t>\<close>: its shape, its strides (in bytes, which
  for one-byte items is also in items) and the memory it owns. The constructor is called
  without a data pointer, so the array allocates its own memory, one byte per item of the
  shape; a cell that has not been written yet is \<open>None\<close>. A negative dimension is refused
  by the array constructor with a \<^verbatim>\<open>ValueError\<close>. Running out of memory is not modelled.

  The two out-of-bounds errors stand for the undefined behaviour of C++: reading
  \<^verbatim>\<open>frame.data[idx]\<close> at or beyond the vector's size, and writing through the unchecked
  accessor outside the memory of the array. \<^verbatim>\<open>TypeError\<close> is what a bound method raises
  when the object it is called on is not of its class, \<^verbatim>\<open>IndexError\<close> what an item
  assignment outside the shape raises.
\<close>

datatype error = ValueError | TypeError | IndexError | ReadOutOfBounds | WriteOutOfBounds

record ndarray =
  shape :: "int \<times> int \<times> int"
  strides :: "int \<times> int \<times> int"
  mem :: "uint8_t option list"

definition array_t :: "int \<times> int \<times> int \<Rightarrow> int \<times> int \<times> int \<Rightarrow> error + ndarray" where
  "array_t shp strd =
     (case shp of (d0, d1, d2) \<Rightarrow>
        if d0 < 0 \<or> d1 < 0 \<or> d2 < 0 then Inl ValueError
        else Inr \<lparr>shape = shp, strides = strd, mem = replicate (nat (d0 * d1 * d2)) None\<rparr>)"

text \<open>The offset, from the start of the array's memory, of the item at \<open>(i, j, k)\<close>.\<close>

definition item_offset :: "ndarray \<Rightarrow> int \<Rightarrow> int \<Rightarrow> int \<Rightarrow> int" where
  "item_offset a i j k = (case strides a of (s0, s1, s2) \<Rightarrow> i * s0 + j * s1 + k * s2)"

text \<open>\<^verbatim>\<open>buf(i, j, k) = v\<close> through \<^verbatim>\<open>mutable_unchecked<3>()\<close>: no index check, the write goes
  to the offset the strides give.\<close>

definition unchecked_set :: "ndarray \<Rightarrow> int \<Rightarrow> int \<Rightarrow> int \<Rightarrow> uint8_t \<Rightarrow> error + ndarray" where
  "unchecked_set a i j k v =
     (let off = item_offset a i j k in
      if 0 \<le> off \<and> off < int (length (mem a))
      then Inr (a\<lparr>mem := (mem a)[nat off := Some v]\<rparr>)
      else Inl WriteOutOfBounds)"

text \<open>What the caller reads at \<open>(i, j, k)\<close>: the item inside the shape, at the offset the
  strides give; \<open>None\<close> outside the shape or on memory never written.\<close>

definition getitem :: "ndarray \<Rightarrow> int \<Rightarrow> int \<Rightarrow> int \<Rightarrow> uint8_t option" where
  "getitem a i j k =
     (case shape a of (d0, d1, d2) \<Rightarrow>
        if 0 \<le> i \<and> i < d0 \<and> 0 \<le> j \<and> j < d1 \<and> 0 \<le> k \<and> k < d2
        then (let off = item_offset a i j k in
              if 0 \<le> off \<and> off < int (length (mem a)) then mem a ! nat off else None)
        else None)"

text \<open>\<^verbatim>\<open>frame.data[idx]\<close>, with the out-of-range read made a result.\<close>

definition data_at :: "uint8_t list \<Rightarrow> nat \<Rightarrow> error + uint8_t" where
  "data_at d idx = (if idx < length d then Inr (d ! idx) else Inl ReadOutOfBounds)"

subsection \<open>frame_to_numpy (bindings.cpp, lines 11-30)\<close>

text \<open>
  The three nested \<^verbatim>\<open>for\<close> loops, innermost first. The loop state is the array being
  filled and the running index \<open>idx\<close> (a \<^verbatim>\<open>size_t\<close>); the loop counters are
  \<^verbatim>\<open>py::ssize_t\<close>. In \<^verbatim>\<open>buf(i, j, k) = frame.data[idx++]\<close> the read comes first, then
  the write.
\<close>

function loop_k :: "Frame \<Rightarrow> int \<Rightarrow> int \<Rightarrow> int \<Rightarrow> ndarray \<times> nat \<Rightarrow> error + ndarray \<times> nat" where
  "loop_k frame i j k (buf, idx) =
     (if k < 3 then
        (case data_at (data frame) idx of
           Inl e \<Rightarrow> Inl e
         | Inr v \<Rightarrow>
             (case unchecked_set buf i j k v of
                Inl e \<Rightarrow> Inl e
              | Inr buf' \<Rightarrow> loop_k frame i j (k + 1) (buf', idx + 1)))
      else Inr (buf, idx))"
  by pat_completeness auto
termination
  by (relation "measure (\<lambda>(frame, i, j, k, st). nat (3 - k))") auto

function loop_j :: "Frame \<Rightarrow> int \<Rightarrow> int \<Rightarrow> ndarray \<times> nat \<Rightarrow> error + ndarray \<times> nat" where
  "loop_j frame i j st =
     (if j < sint (width frame) then
        (case loop_k frame i j 0 st of
           Inl e \<Rightarrow> Inl e
         | Inr st' \<Rightarrow> loop_j frame i (j + 1) st')
      else Inr st)"
  by pat_completeness auto
termination
  by (relation "measure (\<lambda>(frame, i, j, st). nat (sint (width frame) - j))") auto

function loop_i :: "Frame \<Rightarrow> int \<Rightarrow> ndarray \<times> nat \<Rightarrow> error + ndarray \<times> nat" where
  "loop_i frame i st =
     (if i < sint (height frame) then
        (case loop_j frame i 0 st of
           Inl e \<Rightarrow> Inl e
         | Inr st' \<Rightarrow> loop_i frame (i + 1) st')
      else Inr st)"
  by pat_completeness auto
termination
  by (relation "measure (\<lambda>(frame, i, st). nat (sint (height frame) - i))") auto

definition frame_to_numpy :: "Frame \<Rightarrow> error + ndarray" where
  "frame_to_numpy frame =
     (case array_t (sint (height frame), sint (width frame), 3)
                   (sint (width frame * 3), 3, 1) of
        Inl e \<Rightarrow> Inl e
      | Inr result \<Rightarrow>
          (case loop_i frame 0 (result, 0) of
             Inl e \<Rightarrow> Inl e
           | Inr (buf, idx) \<Rightarrow> Inr buf))"

text \<open>Frames used to run the definitions: a 2 by 2 picture, an empty frame whose width
  makes \<^verbatim>\<open>frame.width * 3\<close> exceed the largest \<^verbatim>\<open>int\<close>, and an empty frame with a
  negative width. All three carry exactly \<open>width * height * 3\<close> bytes.\<close>

definition small_frame :: Frame where
  "small_frame =
     \<lparr>index = 0, pts = 0, dts = None, data = [1, 2, 3, 4, 5, 6, 7, 8, 9, 10, 11, 12],
      width = 2, height = 2\<rparr>"

definition wide_frame :: Frame where
  "wide_frame = \<lparr>index = 0, pts = 0, dts = None, data = [], width = 1000000000, height = 0\<rparr>"

definition negative_frame :: Frame where
  "negative_frame = \<lparr>index = 0, pts = 0, dts = None, data = [], width = - 1, height = 0\<rparr>"

text \<open>Two more frames. The first is the 2 by 2 picture after the caller has set its
  \<^verbatim>\<open>width\<close> and \<^verbatim>\<open>height\<close> attributes to 1: the twelve bytes stay. The second has two
  rows, a width that makes \<^verbatim>\<open>frame.width * 3\<close> leave the range of \<^verbatim>\<open>int\<close>, and exactly
  \<open>width * height * 3\<close> bytes.\<close>

definition cropped_frame :: Frame where
  "cropped_frame = small_frame\<lparr>width := 1, height := 1\<rparr>"


section \<open>The decode session\<close>

text \<open>
  The private members of \<^verbatim>\<open>class CppVideoReader\<close> (video_reader.h, lines 97-108). The
  pointer members are options (\<open>None\<close> is \<^verbatim>\<open>nullptr\<close>). The decoding library's structs are
  only forward-declared in the header; a format context is modelled by the container it
  has open, the others by a token, since nothing proved here looks inside them.
  The members keep their names without the final underscore, which a name cannot end in
  here; \<^verbatim>\<open>frame_\<close> is \<open>raw_frame\<close>.
\<close>

datatype media_type = Video | Audio | Other

record stream_info =
  media :: media_type
  usable :: bool

record AVFormatContext =
  streams :: "stream_info list"
  declared :: VideoMetadata

datatype AVCodecContext = AVCodecContext
datatype AVFrame = AVFrame
datatype AVPacket = AVPacket
datatype SwsContext = SwsContext

record CppVideoReader =
  format_ctx :: "AVFormatContext option"
  codec_ctx :: "AVCodecContext option"
  raw_frame :: "AVFrame option"
  rgb_frame :: "AVFrame option"
  packet :: "AVPacket option"
  video_stream_index :: int
  metadata :: "VideoMetadata option"
  sws_ctx :: "SwsContext option"
  rgb_buffer :: "uint8_t list"

text \<open>\<^verbatim>\<open>bool is_open() const { return format_ctx_ != nullptr; }\<close> (video_reader.h, line 94).\<close>

definition is_open :: "CppVideoReader \<Rightarrow> bool" where
  "is_open s \<longleftrightarrow> format_ctx s \<noteq> None"

text \<open>
  The bodies of the constructor, \<^verbatim>\<open>cleanup\<close>, \<^verbatim>\<open>close\<close>, \<^verbatim>\<open>initialize_codec\<close> and
  \<^verbatim>\<open>open\<close> are in \<^verbatim>\<open>video_reader.cpp\<close>, which is not among the sources; only their
  declarations are. The definitions of this section that are marked so follow sections
  4.1, 4.5 and 7 of the specification.
\<close>

text \<open>Modelled from the spec: the constructor \<^verbatim>\<open>CppVideoReader()\<close>, whose body is missing.
  A new session is closed and holds no resource (sections 3 and 4.5).\<close>

definition new_reader :: CppVideoReader where
  "new_reader =
     \<lparr>format_ctx = None, codec_ctx = None, raw_frame = None, rgb_frame = None,
      packet = None, video_stream_index = - 1, metadata = None, sws_ctx = None,
      rgb_buffer = []\<rparr>"

text \<open>Modelled from the spec: \<^verbatim>\<open>void cleanup()\<close>, whose body is missing. It releases every
  decoder, demuxer and conversion resource the session holds (section 4.5) and leaves
  each member empty.\<close>

definition cleanup :: "CppVideoReader \<Rightarrow> CppVideoReader" where
  "cleanup s =
     s\<lparr>sws_ctx := None, rgb_buffer := [], packet := None, rgb_frame := None,
       raw_frame := None, codec_ctx := None, format_ctx := None,
       metadata := None, video_stream_index := - 1\<rparr>"

text \<open>Modelled from the spec: \<^verbatim>\<open>void close()\<close>, whose body is missing. It releases all
  resources, is never an error (sections 4.5 and 7) and returns nothing, so the model
  has no error result.\<close>

definition close :: "CppVideoReader \<Rightarrow> CppVideoReader" where
  "close s = cleanup s"

text \<open>The errors of \<^verbatim>\<open>open\<close> (section 7), and the file system it reads: a path leads to
  the container found there, or to nothing when the file is missing, unreadable or not a
  recognised container.\<close>

datatype open_error = OpenError | NoVideoStreamError

type_synonym filesystem = "string \<Rightarrow> AVFormatContext option"

text \<open>Modelled from the spec: the stream selection inside \<^verbatim>\<open>open\<close>, whose body is
  missing. It selects the first stream whose media type is video (section 4.1); the
  second argument is the position of the head of the list.\<close>

fun find_video_stream :: "stream_info list \<Rightarrow> nat \<Rightarrow> nat option" where
  "find_video_stream [] n = None"
| "find_video_stream (st # sts) n =
     (if media st = Video then Some n else find_video_stream sts (Suc n))"

text \<open>Modelled from the spec: \<^verbatim>\<open>void initialize_codec()\<close>, whose body is missing. It
  sets up the decoder for the selected stream and the frame and packet holders of the
  decode session (section 3); it fails when the stream is not usable (section 4.1). The
  conversion context is created later, on the first conversion (section 4.3).\<close>

definition initialize_codec :: "CppVideoReader \<Rightarrow> nat \<Rightarrow> CppVideoReader option" where
  "initialize_codec s n =
     (case format_ctx s of
        None \<Rightarrow> None
      | Some c \<Rightarrow>
          if n < length (streams c) \<and> usable (streams c ! n)
          then Some (s\<lparr>codec_ctx := Some AVCodecContext, raw_frame := Some AVFrame,
                       rgb_frame := Some AVFrame, packet := Some AVPacket\<rparr>)
          else None)"

text \<open>Modelled from the spec: \<^verbatim>\<open>VideoMetadata open(const std::string& path)\<close>, whose
  body is missing. It opens the container, selects the first video stream, sets up the
  decoder, fills the metadata and returns it (section 4.1). The failures are those of
  the specification: no container (\<open>OpenError\<close>), no video stream
  (\<open>NoVideoStreamError\<close>), no usable decoder for the selected stream (\<open>OpenError\<close>).
  Once the container has been acquired, a failure rolls the partial initialization back
  through \<^verbatim>\<open>cleanup\<close> before the error leaves (sections 4.1 and 7).\<close>

definition open_video :: "filesystem \<Rightarrow> CppVideoReader \<Rightarrow> string \<Rightarrow> CppVideoReader \<times> (open_error + VideoMetadata)" where
  "open_video fs s path =
     (case fs path of
        None \<Rightarrow> (s, Inl OpenError)
      | Some c \<Rightarrow>
          (let s1 = s\<lparr>format_ctx := Some c\<rparr> in
           case find_video_stream (streams c) 0 of
             None \<Rightarrow> (cleanup s1, Inl NoVideoStreamError)
           | Some n \<Rightarrow>
               (let s2 = s1\<lparr>video_stream_index := int n\<rparr> in
                case initialize_codec s2 n of
                  None \<Rightarrow> (cleanup s2, Inl OpenError)
                | Some s3 \<Rightarrow> (s3\<lparr>metadata := Some (declared c)\<rparr>, Inr (declared c)))))"

text \<open>A file system to run \<open>open_video\<close> on: a clip with an audio and a video stream, a
  file with audio only, a file whose video stream has no usable decoder; no other path
  names a container.\<close>

definition example_md :: VideoMetadata where
  "example_md =
     \<lparr>VideoMetadata.width = 640, VideoMetadata.height = 480, fps = 4629137466983448576,
      frame_count = 300, duration = 4621819117588971520, codec = ''h264'',
      bit_rate = None, color_space = None, bit_depth = Some 8, has_audio = True,
      timecode = None\<rparr>"

definition example_container :: AVFormatContext where
  "example_container =
     \<lparr>streams = [\<lparr>media = Audio, usable = True\<rparr>, \<lparr>media = Video, usable = True\<rparr>],
      declared = example_md\<rparr>"

definition example_fs :: filesystem where
  "example_fs path =
     (if path = ''clip.mp4'' then Some example_container
      else if path = ''audio.mp3''
      then Some \<lparr>streams = [\<lparr>media = Audio, usable = True\<rparr>], declared = example_md\<rparr>
      else if path = ''broken.mp4''
      then Some \<lparr>streams = [\<lparr>media = Video, usable = False\<rparr>], declared = example_md\<rparr>
      else None)"

section \<open>The binding layer (bindings.cpp, lines 32-91)\<close>

text \<open>
  The objects the caller holds live in a store: a list of objects, an object's address
  being its position. Creating an object appends it, so the address of a new object is
  one that named nothing before; objects are never moved or removed. A \<open>Frame\<close> object
  contains its byte vector, a reader object the session with its conversion buffer.

  An array object is one of two kinds, as the array constructor makes them. Constructed
  without a data pointer it allocates and owns its memory, which is then part of the
  object (\<open>PyArray\<close>). Constructed over a data pointer with a base object it is a view
  (\<open>PyArrayView\<close>, with the address of the base, the shape and the strides): it has no
  memory of its own, its items are the bytes of the base, the byte vector of a frame or
  the conversion buffer of a reader, and an assignment to one of its items changes the
  base. Nothing in \<^verbatim>\<open>bindings.cpp\<close> constructs a view; the store has them so that an array
  sharing the bytes of a frame can be told from one holding a copy.
\<close>

type_synonym ref = nat

datatype pyobj =
    PyFrame Frame
  | PyArray ndarray
  | PyArrayView ref "int \<times> int \<times> int" "int \<times> int \<times> int"
  | PyVideoMetadata VideoMetadata
  | PyReader CppVideoReader

type_synonym heap = "pyobj list"

definition deref :: "heap \<Rightarrow> ref \<Rightarrow> pyobj option" where
  "deref h r = (if r < length h then Some (h ! r) else None)"

subsection \<open>Frame.data (bindings.cpp, lines 58-60)\<close>

text \<open>The read-only property \<^verbatim>\<open>data\<close>: the getter runs \<open>frame_to_numpy\<close> on the frame and
  returns the array it built, a new object.\<close>

definition Frame_data :: "heap \<Rightarrow> ref \<Rightarrow> heap \<times> (error + ref)" where
  "Frame_data h self =
     (case deref h self of
        Some (PyFrame f) \<Rightarrow>
          (case frame_to_numpy f of
             Inl e \<Rightarrow> (h, Inl e)
           | Inr result \<Rightarrow> (h @ [PyArray result], Inr (length h)))
      | _ \<Rightarrow> (h, Inl TypeError))"

text \<open>The bytes an object stores that a view can be laid over, and the object after one of
  them has been overwritten.\<close>

definition stored_bytes :: "pyobj \<Rightarrow> uint8_t list option" where
  "stored_bytes obj =
     (case obj of
        PyFrame f \<Rightarrow> Some (data f)
      | PyReader s \<Rightarrow> Some (rgb_buffer s)
      | _ \<Rightarrow> None)"

definition store_byte :: "pyobj \<Rightarrow> nat \<Rightarrow> uint8_t \<Rightarrow> pyobj" where
  "store_byte obj off v =
     (case obj of
        PyFrame f \<Rightarrow> PyFrame (f\<lparr>data := (data f)[off := v]\<rparr>)
      | PyReader s \<Rightarrow> PyReader (s\<lparr>rgb_buffer := (rgb_buffer s)[off := v]\<rparr>)
      | _ \<Rightarrow> obj)"

text \<open>What the caller can do with an array it was given: assign an item inside the shape.
  On an array that owns its memory the write goes to that memory; on a view it goes to
  the bytes of the base object.\<close>

definition ndarray_setitem :: "heap \<Rightarrow> ref \<Rightarrow> int \<times> int \<times> int \<Rightarrow> uint8_t \<Rightarrow> heap \<times> (error + unit)" where
  "ndarray_setitem h r ijk v =
     (case deref h r of
        Some (PyArray a) \<Rightarrow>
          (case (ijk, shape a) of ((i, j, k), (d0, d1, d2)) \<Rightarrow>
             if 0 \<le> i \<and> i < d0 \<and> 0 \<le> j \<and> j < d1 \<and> 0 \<le> k \<and> k < d2
             then (case unchecked_set a i j k v of
                     Inl e \<Rightarrow> (h, Inl e)
                   | Inr a' \<Rightarrow> (h[r := PyArray a'], Inr ()))
             else (h, Inl IndexError))
      | Some (PyArrayView base shp strd) \<Rightarrow>
          (case (ijk, shp, strd) of ((i, j, k), (d0, d1, d2), (s0, s1, s2)) \<Rightarrow>
             if 0 \<le> i \<and> i < d0 \<and> 0 \<le> j \<and> j < d1 \<and> 0 \<le> k \<and> k < d2
             then (let off = i * s0 + j * s1 + k * s2 in
                   case deref h base of
                     None \<Rightarrow> (h, Inl TypeError)
                   | Some obj \<Rightarrow>
                       (case stored_bytes obj of
                          None \<Rightarrow> (h, Inl TypeError)
                        | Some bs \<Rightarrow>
                            if 0 \<le> off \<and> off < int (length bs)
                            then (h[base := store_byte obj (nat off) v], Inr ())
                            else (h, Inl WriteOutOfBounds)))
             else (h, Inl IndexError))
      | _ \<Rightarrow> (h, Inl TypeError))"

subsection \<open>VideoMetadata attributes (bindings.cpp, lines 36-48)\<close>












subsection \<open>The scope methods of the reader (bindings.cpp, lines 78-83)\<close>

text \<open>\<^verbatim>\<open>__enter__\<close> returns \<^verbatim>\<open>self\<close> by reference: the caller gets the object it entered
  with. \<^verbatim>\<open>__exit__\<close> takes the three exception arguments, looks at none of them, calls
  \<^verbatim>\<open>self.close()\<close> and returns nothing.\<close>

definition Reader_enter :: "heap \<Rightarrow> ref \<Rightarrow> heap \<times> (error + ref)" where
  "Reader_enter h self =
     (case deref h self of
        Some (PyReader s) \<Rightarrow> (h, Inr self)
      | _ \<Rightarrow> (h, Inl TypeError))"

definition Reader_exit :: "heap \<Rightarrow> ref \<Rightarrow> 'a \<Rightarrow> 'b \<Rightarrow> 'c \<Rightarrow> heap \<times> (error + unit)" where
  "Reader_exit h self exc_type exc_value traceback =
     (case deref h self of
        Some (PyReader s) \<Rightarrow> (h[self := PyReader (close s)], Inr ())
      | _ \<Rightarrow> (h, Inl TypeError))"

text \<open>
  The scope itself is the caller's \<^verbatim>\<open>with\<close> statement: enter, run the body with what
  enter returned, then exit, on the way out of a body that returned as well as of one
  that raised. \<^verbatim>\<open>__exit__\<close> returns nothing, which does not suppress the exception, so
  a raised exception goes on to the caller after the exit. The body is any code: a
  function from the store and the handle to the new store and either the exception it
  raised or the value it produced.
\<close>

datatype py_exception = BindingError error | Raised string

definition with_reader :: "heap \<Rightarrow> ref \<Rightarrow> (heap \<Rightarrow> ref \<Rightarrow> heap \<times> (py_exception + 'v)) \<Rightarrow> heap \<times> (py_exception + 'v)" where
  "with_reader h mgr body =
     (case Reader_enter h mgr of
        (h0, Inl e) \<Rightarrow> (h0, Inl (BindingError e))
      | (h0, Inr target) \<Rightarrow>
          (case body h0 target of
             (h1, Inl exc) \<Rightarrow>
               (case Reader_exit h1 mgr (Some exc) (Some exc) (Some exc) of
                  (h2, Inl e) \<Rightarrow> (h2, Inl (BindingError e))
                | (h2, Inr u) \<Rightarrow> (h2, Inl exc))
           | (h1, Inr v) \<Rightarrow>
               (case Reader_exit h1 mgr (None :: unit option) (None :: unit option) (None :: unit option) of
                  (h2, Inl e) \<Rightarrow> (h2, Inl (BindingError e))
                | (h2, Inr u) \<Rightarrow> (h2, Inr v))))"

text \<open>A store to run the bindings on: a reader, a frame and a metadata object.\<close>

definition example_heap :: heap where
  "example_heap = [PyReader new_reader, PyFrame small_frame, PyVideoMetadata example_md]"


definition shared_heap :: heap where
  "shared_heap = [PyFrame small_frame, PyArrayView 0 (2, 2, 3) (6, 3, 1)]"

text \<open>A scope body to run \<open>with_reader\<close> on: it leaves the reader it was given holding an
  open container, as a body that opened a file would, and then raises.\<close>

definition raising_body :: "heap \<Rightarrow> ref \<Rightarrow> heap \<times> (py_exception + unit)" where
  "raising_body h r =
     (case deref h r of
        Some (PyReader s) \<Rightarrow>
          (h[r := PyReader (s\<lparr>format_ctx := Some example_container\<rparr>)],
           Inl (Raised ''decode failed''))
      | _ \<Rightarrow> (h, Inl (BindingError TypeError)))"

section \<open>Invariants of the copy loops\<close>

text \<open>The outcome of a loop as far as its reads go: it did not stop on a read beyond the
  end of the frame's data, and if it ran to its end the running index is \<open>n\<close>.\<close>

definition reads_ok :: "error + ndarray \<times> nat \<Rightarrow> nat \<Rightarrow> bool" where
  "reads_ok r n = (case r of Inl e \<Rightarrow> e \<noteq> ReadOutOfBounds | Inr (b, idx') \<Rightarrow> idx' = n)"

text \<open>The array while it is being filled: shape and strides as constructed (\<open>s0\<close> is the
  first stride, whatever the multiplication gave), as many cells as the frame has bytes,
  and the first \<open>idx\<close> cells holding the first \<open>idx\<close> bytes.\<close>

definition filled :: "Frame \<Rightarrow> int \<Rightarrow> ndarray \<Rightarrow> nat \<Rightarrow> bool" where
  "filled frame s0 buf idx \<longleftrightarrow>
     shape buf = (sint (height frame), sint (width frame), 3) \<and>
     strides buf = (s0, 3, 1) \<and>
     length (mem buf) = length (data frame) \<and>
     idx \<le> length (data frame) \<and>
     take idx (mem buf) = map Some (take idx (data frame))"

section \<open>Properties of frame_to_numpy\<close>

text \<open>The loop equations are unfolded one step at a time, by hand.\<close>

declare loop_k.simps [simp del] loop_j.simps [simp del] loop_i.simps [simp del]

subsection \<open>Reads stay inside the frame's data\<close>

lemma reads_ok_Inl [simp]: "reads_ok (Inl e) n = (e \<noteq> ReadOutOfBounds)"
  by (simp add: reads_ok_def)

lemma reads_ok_Inr [simp]: "reads_ok (Inr (b, m)) n = (m = n)"
  by (simp add: reads_ok_def)

lemma unchecked_set_error: "unchecked_set a i j k v = Inl e \<Longrightarrow> e = WriteOutOfBounds"
  by (auto simp: unchecked_set_def Let_def split: if_splits)

lemma loop_k_reads:
  "0 \<le> k \<Longrightarrow> idx + nat (3 - k) \<le> length (data frame) \<Longrightarrow>
   reads_ok (loop_k frame i j k (buf, idx)) (idx + nat (3 - k))"
proof (induction frame i j k "(buf, idx)" arbitrary: buf idx rule: loop_k.induct)
  case (1 frame i j k buf idx)
  show ?case
  proof (cases "k < 3")
    case False
    then show ?thesis by (subst loop_k.simps) simp
  next
    case True
    with "1.prems" have lt: "idx < length (data frame)" by linarith
    then have rd: "data_at (data frame) idx = Inr (data frame ! idx)"
      by (simp add: data_at_def)
    show ?thesis
    proof (cases "unchecked_set buf i j k (data frame ! idx)")
      case (Inl e)
      then have "e = WriteOutOfBounds" by (rule unchecked_set_error)
      with True rd Inl show ?thesis by (subst loop_k.simps) simp
    next
      case (Inr buf')
      have unfold: "loop_k frame i j k (buf, idx) = loop_k frame i j (k + 1) (buf', idx + 1)"
        using True rd Inr by (subst loop_k.simps) simp
      have count: "idx + 1 + nat (3 - (k + 1)) = idx + nat (3 - k)"
        using True "1.prems" by linarith
      have "0 \<le> k + 1" and "idx + 1 + nat (3 - (k + 1)) \<le> length (data frame)"
        using "1.prems" count by linarith+
      then have "reads_ok (loop_k frame i j (k + 1) (buf', idx + 1)) (idx + 1 + nat (3 - (k + 1)))"
        by (rule "1.hyps" [OF True rd Inr])
      then show ?thesis by (simp only: unfold count)
    qed
  qed
qed

lemma loop_j_reads:
  "0 \<le> j \<Longrightarrow> idx + 3 * nat (sint (width frame) - j) \<le> length (data frame) \<Longrightarrow>
   reads_ok (loop_j frame i j (buf, idx)) (idx + 3 * nat (sint (width frame) - j))"
proof (induction frame i j "(buf, idx)" arbitrary: buf idx rule: loop_j.induct)
  case (1 frame i j buf idx)
  show ?case
  proof (cases "j < sint (width frame)")
    case False
    then show ?thesis by (subst loop_j.simps) simp
  next
    case True
    have count: "idx + 3 + 3 * nat (sint (width frame) - (j + 1)) = idx + 3 * nat (sint (width frame) - j)"
      using True by linarith
    have "reads_ok (loop_k frame i j 0 (buf, idx)) (idx + nat (3 - 0))"
      using "1.prems" count by (intro loop_k_reads) auto
    then have k: "reads_ok (loop_k frame i j 0 (buf, idx)) (idx + 3)" by simp
    show ?thesis
    proof (cases "loop_k frame i j 0 (buf, idx)")
      case (Inl e)
      with k True show ?thesis by (subst loop_j.simps) simp
    next
      case (Inr st')
      obtain buf' idx' where st': "st' = (buf', idx')" by (cases st')
      with k Inr have idx': "idx' = idx + 3" by simp
      have unfold: "loop_j frame i j (buf, idx) = loop_j frame i (j + 1) (buf', idx + 3)"
        using True Inr st' idx' by (subst loop_j.simps) simp
      have "0 \<le> j + 1" and "idx + 3 + 3 * nat (sint (width frame) - (j + 1)) \<le> length (data frame)"
        using "1.prems" count by linarith+
      then have "reads_ok (loop_j frame i (j + 1) (buf', idx + 3))
              (idx + 3 + 3 * nat (sint (width frame) - (j + 1)))"
        by (rule "1.hyps" [OF True Inr [unfolded st' idx']])
      then show ?thesis by (simp only: unfold count)
    qed
  qed
qed

lemma loop_i_reads:
  "0 \<le> i \<Longrightarrow> 0 \<le> sint (width frame) \<Longrightarrow>
   idx + 3 * nat (sint (width frame)) * nat (sint (height frame) - i) \<le> length (data frame) \<Longrightarrow>
   reads_ok (loop_i frame i (buf, idx))
     (idx + 3 * nat (sint (width frame)) * nat (sint (height frame) - i))"
proof (induction frame i "(buf, idx)" arbitrary: buf idx rule: loop_i.induct)
  case (1 frame i buf idx)
  let ?W = "nat (sint (width frame))"
  show ?case
  proof (cases "i < sint (height frame)")
    case False
    then show ?thesis by (subst loop_i.simps) simp
  next
    case True
    have "nat (sint (height frame) - i) = Suc (nat (sint (height frame) - (i + 1)))"
      using True by linarith
    then have count: "idx + 3 * ?W + 3 * ?W * nat (sint (height frame) - (i + 1))
        = idx + 3 * ?W * nat (sint (height frame) - i)"
      by simp
    have "reads_ok (loop_j frame i 0 (buf, idx)) (idx + 3 * nat (sint (width frame) - 0))"
      using "1.prems" count by (intro loop_j_reads) auto
    then have j: "reads_ok (loop_j frame i 0 (buf, idx)) (idx + 3 * ?W)" by simp
    show ?thesis
    proof (cases "loop_j frame i 0 (buf, idx)")
      case (Inl e)
      with j True show ?thesis by (subst loop_i.simps) simp
    next
      case (Inr st')
      obtain buf' idx' where st': "st' = (buf', idx')" by (cases st')
      with j Inr have idx': "idx' = idx + 3 * ?W" by simp
      have unfold: "loop_i frame i (buf, idx) = loop_i frame (i + 1) (buf', idx + 3 * ?W)"
        using True Inr st' idx' by (subst loop_i.simps) simp
      have "0 \<le> i + 1" and "0 \<le> sint (width frame)"
        and "idx + 3 * ?W + 3 * ?W * nat (sint (height frame) - (i + 1)) \<le> length (data frame)"
        using "1.prems" count by linarith+
      then have "reads_ok (loop_i frame (i + 1) (buf', idx + 3 * ?W))
              (idx + 3 * ?W + 3 * ?W * nat (sint (height frame) - (i + 1)))"
        by (rule "1.hyps" [OF True Inr [unfolded st' idx']])
      then show ?thesis by (simp only: unfold count)
    qed
  qed
qed

text \<open>
  Under the hypotheses on the data alone, with no bound on the width, a run never stops on
  a read: the running index counts the items copied, whatever the strides are. It can
  stop on a write, as the frame of two rows below shows.
\<close>

lemma frame_to_numpy_no_read_fault:
  assumes "0 \<le> sint (width frame)" and "0 \<le> sint (height frame)"
    and "int (length (data frame)) = sint (width frame) * sint (height frame) * 3"
  shows "frame_to_numpy frame \<noteq> Inl ReadOutOfBounds"
proof -
  have len: "0 + 3 * nat (sint (width frame)) * nat (sint (height frame) - 0) \<le> length (data frame)"
  proof -
    have a: "int (3 * nat (sint (width frame)) * nat (sint (height frame)))
        = sint (width frame) * sint (height frame) * 3"
      using assms(1,2) by simp
    have "int (3 * nat (sint (width frame)) * nat (sint (height frame))) = int (length (data frame))"
      unfolding a assms(3) ..
    then have "3 * nat (sint (width frame)) * nat (sint (height frame)) = length (data frame)"
      by (simp only: of_nat_eq_iff)
    then show ?thesis by simp
  qed
  show ?thesis
  proof (cases "array_t (sint (height frame), sint (width frame), 3) (sint (width frame * 3), 3, 1)")
    case (Inl e)
    then have "e = ValueError" by (auto simp: array_t_def split: if_splits)
    with Inl show ?thesis by (simp add: frame_to_numpy_def)
  next
    case (Inr result)
    have "reads_ok (loop_i frame 0 (result, 0))
        (0 + 3 * nat (sint (width frame)) * nat (sint (height frame) - 0))"
      using assms(1) len by (intro loop_i_reads) auto
    then show ?thesis
      using Inr by (auto simp: frame_to_numpy_def reads_ok_def split: sum.splits)
  qed
qed

subsection \<open>The array is filled in data order\<close>

lemma pixel_lt:
  fixes i j W H :: int
  assumes "0 \<le> i" "i < H" "0 \<le> j" "j < W"
  shows "i * W + j < W * H"
proof -
  have "i * W + j < i * W + W" using assms by simp
  also have "\<dots> = (i + 1) * W" by (simp add: algebra_simps)
  also have "\<dots> \<le> H * W" using assms by (intro mult_right_mono) auto
  finally show ?thesis by (simp add: mult.commute)
qed

lemma three_lt:
  fixes p q k :: int
  shows "p < q \<Longrightarrow> k < 3 \<Longrightarrow> p * 3 + k < q * 3"
  by linarith

lemma filled_step:
  assumes f: "filled frame s0 buf idx"
    and off: "item_offset buf i j k = int idx"
    and lt: "idx < length (data frame)"
  shows "\<exists>buf'. unchecked_set buf i j k (data frame ! idx) = Inr buf' \<and> filled frame s0 buf' (idx + 1)"
proof -
  let ?buf' = "buf\<lparr>mem := (mem buf)[idx := Some (data frame ! idx)]\<rparr>"
  from f have len: "length (mem buf) = length (data frame)"
    and tk: "take idx (mem buf) = map Some (take idx (data frame))"
    by (simp_all add: filled_def)
  have set: "unchecked_set buf i j k (data frame ! idx) = Inr ?buf'"
    using off lt len by (simp add: unchecked_set_def Let_def)
  have "take (idx + 1) ((mem buf)[idx := Some (data frame ! idx)])
      = take idx (mem buf) @ [Some (data frame ! idx)]"
    using lt len by (simp add: take_Suc_conv_app_nth)
  also have "\<dots> = map Some (take (idx + 1) (data frame))"
    using lt tk by (simp add: take_Suc_conv_app_nth)
  finally have "filled frame s0 ?buf' (idx + 1)"
    using f lt by (simp add: filled_def)
  with set show ?thesis by blast
qed

lemma loop_k_fill:
  assumes "filled frame s0 buf idx" and "0 \<le> k" and "k \<le> 3"
    and "int idx = (i * sint (width frame) + j) * 3 + k"
    and "0 \<le> i" and "i < sint (height frame)" and "0 \<le> j" and "j < sint (width frame)"
    and "int (length (data frame)) = sint (width frame) * sint (height frame) * 3"
    and "i * s0 = i * (sint (width frame) * 3)"
  shows "\<exists>buf'. loop_k frame i j k (buf, idx) = Inr (buf', idx + nat (3 - k)) \<and>
           filled frame s0 buf' (idx + nat (3 - k))"
  using assms
proof (induction frame i j k "(buf, idx)" arbitrary: buf idx rule: loop_k.induct)
  case (1 frame i j k buf idx)
  show ?case
  proof (cases "k < 3")
    case False
    with "1.prems" show ?thesis by (subst loop_k.simps) simp
  next
    case True
    have "i * sint (width frame) + j < sint (width frame) * sint (height frame)"
      using "1.prems" by (intro pixel_lt) auto
    then have "(i * sint (width frame) + j) * 3 + k < sint (width frame) * sint (height frame) * 3"
      using True by (rule three_lt)
    then have lt: "idx < length (data frame)"
      using "1.prems" by linarith
    then have rd: "data_at (data frame) idx = Inr (data frame ! idx)"
      by (simp add: data_at_def)
    have off: "item_offset buf i j k = int idx"
      using "1.prems" by (simp add: item_offset_def filled_def algebra_simps)
    from filled_step [OF "1.prems"(1) off lt]
    obtain buf' where set: "unchecked_set buf i j k (data frame ! idx) = Inr buf'"
      and f': "filled frame s0 buf' (idx + 1)" by blast
    have unfold: "loop_k frame i j k (buf, idx) = loop_k frame i j (k + 1) (buf', idx + 1)"
      using True rd set by (subst loop_k.simps) simp
    have count: "idx + 1 + nat (3 - (k + 1)) = idx + nat (3 - k)"
      using True "1.prems" by linarith
    have "\<exists>b. loop_k frame i j (k + 1) (buf', idx + 1) = Inr (b, idx + 1 + nat (3 - (k + 1))) \<and>
           filled frame s0 b (idx + 1 + nat (3 - (k + 1)))"
      using "1.prems" True f' by (intro "1.hyps" [OF True rd set]) auto
    then show ?thesis by (simp only: unfold count)
  qed
qed

lemma loop_j_fill:
  assumes "filled frame s0 buf idx" and "0 \<le> j" and "j \<le> sint (width frame)"
    and "int idx = (i * sint (width frame) + j) * 3"
    and "0 \<le> i" and "i < sint (height frame)"
    and "int (length (data frame)) = sint (width frame) * sint (height frame) * 3"
    and "i * s0 = i * (sint (width frame) * 3)"
  shows "\<exists>buf'. loop_j frame i j (buf, idx) = Inr (buf', idx + 3 * nat (sint (width frame) - j)) \<and>
           filled frame s0 buf' (idx + 3 * nat (sint (width frame) - j))"
  using assms
proof (induction frame i j "(buf, idx)" arbitrary: buf idx rule: loop_j.induct)
  case (1 frame i j buf idx)
  show ?case
  proof (cases "j < sint (width frame)")
    case False
    with "1.prems" show ?thesis by (subst loop_j.simps) simp
  next
    case True
    have "\<exists>b. loop_k frame i j 0 (buf, idx) = Inr (b, idx + nat (3 - 0)) \<and>
            filled frame s0 b (idx + nat (3 - 0))"
      using "1.prems" True by (intro loop_k_fill) auto
    then obtain buf' where k: "loop_k frame i j 0 (buf, idx) = Inr (buf', idx + 3)"
      and f': "filled frame s0 buf' (idx + 3)" by auto
    have unfold: "loop_j frame i j (buf, idx) = loop_j frame i (j + 1) (buf', idx + 3)"
      using True k by (subst loop_j.simps) simp
    have count: "idx + 3 + 3 * nat (sint (width frame) - (j + 1)) = idx + 3 * nat (sint (width frame) - j)"
      using True by linarith
    have next_idx: "int (idx + 3) = (i * sint (width frame) + (j + 1)) * 3"
      using "1.prems"(4) by (simp add: algebra_simps)
    have "\<exists>b. loop_j frame i (j + 1) (buf', idx + 3)
              = Inr (b, idx + 3 + 3 * nat (sint (width frame) - (j + 1))) \<and>
            filled frame s0 b (idx + 3 + 3 * nat (sint (width frame) - (j + 1)))"
      using "1.prems" True f' next_idx by (intro "1.hyps" [OF True k]) auto
    then show ?thesis by (simp only: unfold count)
  qed
qed

lemma loop_i_fill:
  assumes "filled frame (sint (width frame) * 3) buf idx" and "0 \<le> i" and "i \<le> sint (height frame)"
    and "0 \<le> sint (width frame)"
    and "int idx = i * sint (width frame) * 3"
    and "int (length (data frame)) = sint (width frame) * sint (height frame) * 3"
  shows "\<exists>buf'. loop_i frame i (buf, idx) = Inr (buf', length (data frame)) \<and>
           filled frame (sint (width frame) * 3) buf' (length (data frame))"
  using assms
proof (induction frame i "(buf, idx)" arbitrary: buf idx rule: loop_i.induct)
  case (1 frame i buf idx)
  let ?W = "sint (width frame)"
  show ?case
  proof (cases "i < sint (height frame)")
    case False
    with "1.prems" have "i = sint (height frame)" by simp
    with "1.prems" have "int idx = int (length (data frame))"
      by (simp add: algebra_simps)
    then have "idx = length (data frame)" by (simp only: of_nat_eq_iff)
    with False "1.prems"(1) show ?thesis by (subst loop_i.simps) simp
  next
    case True
    have "\<exists>b. loop_j frame i 0 (buf, idx) = Inr (b, idx + 3 * nat (?W - 0)) \<and>
            filled frame (?W * 3) b (idx + 3 * nat (?W - 0))"
      using "1.prems" True by (intro loop_j_fill) auto
    then obtain buf' where j: "loop_j frame i 0 (buf, idx) = Inr (buf', idx + 3 * nat ?W)"
      and f': "filled frame (?W * 3) buf' (idx + 3 * nat ?W)" by auto
    have unfold: "loop_i frame i (buf, idx) = loop_i frame (i + 1) (buf', idx + 3 * nat ?W)"
      using True j by (subst loop_i.simps) simp
    have next_idx: "int (idx + 3 * nat ?W) = (i + 1) * ?W * 3"
      using "1.prems"(4,5) by (simp add: algebra_simps)
    have "\<exists>b. loop_i frame (i + 1) (buf', idx + 3 * nat ?W) = Inr (b, length (data frame)) \<and>
            filled frame (?W * 3) b (length (data frame))"
      using "1.prems" True f' next_idx by (intro "1.hyps" [OF True j]) auto
    then show ?thesis by (simp only: unfold)
  qed
qed

lemma sint_times_3:
  fixes w :: c_int
  assumes "0 \<le> sint w" and "sint w * 3 \<le> 2147483647"
  shows "sint (w * 3) = sint w * 3"
proof -
  have "sint (w * 3) = signed_take_bit 31 (sint w * 3)"
    by (simp add: sint_word_ariths)
  also have "\<dots> = sint w * 3"
    using assms by (intro signed_take_bit_int_eq_self) auto
  finally show ?thesis .
qed

lemma frame_to_numpy_packed:
  assumes w: "0 \<le> sint (width frame)" and h: "0 \<le> sint (height frame)"
    and s: "sint (width frame) * 3 \<le> 2147483647"
    and len: "int (length (data frame)) = sint (width frame) * sint (height frame) * 3"
  shows "frame_to_numpy frame =
     Inr \<lparr>shape = (sint (height frame), sint (width frame), 3),
          strides = (sint (width frame) * 3, 3, 1),
          mem = map Some (data frame)\<rparr>"
proof -
  let ?W = "sint (width frame)" and ?H = "sint (height frame)"
  let ?result = "\<lparr>shape = (?H, ?W, 3), strides = (?W * 3, 3, 1),
                  mem = replicate (nat (?H * ?W * 3)) None\<rparr>"
  have alloc: "array_t (?H, ?W, 3) (sint (width frame * 3), 3, 1) = Inr ?result"
    using w h by (simp add: array_t_def sint_times_3 [OF w s])
  have "nat (?H * ?W * 3) = length (data frame)"
    using len by (simp add: mult.commute)
  then have init: "filled frame (?W * 3) ?result 0"
    by (simp add: filled_def)
  have "\<exists>buf'. loop_i frame 0 (?result, 0) = Inr (buf', length (data frame)) \<and>
           filled frame (?W * 3) buf' (length (data frame))"
    using init w h len by (intro loop_i_fill) auto
  then obtain buf' where run: "loop_i frame 0 (?result, 0) = Inr (buf', length (data frame))"
    and f': "filled frame (?W * 3) buf' (length (data frame))" by blast
  from f' have "take (length (mem buf')) (mem buf') = map Some (data frame)"
    by (simp add: filled_def)
  then have "mem buf' = map Some (data frame)" by simp
  with f' have "buf' = \<lparr>shape = (?H, ?W, 3), strides = (?W * 3, 3, 1), mem = map Some (data frame)\<rparr>"
    by (cases buf') (simp add: filled_def)
  with alloc run show ?thesis
    by (simp add: frame_to_numpy_def)
qed

subsection \<open>Layout of the exposed array\<close>

lemma getitem_packed:
  fixes W H :: int
  assumes "0 \<le> i" "i < H" "0 \<le> j" "j < W" "0 \<le> k" "k < 3"
    and len: "int (length d) = W * H * 3"
  shows "getitem \<lparr>shape = (H, W, 3), strides = (W * 3, 3, 1), mem = map Some d\<rparr> i j k
           = Some (d ! nat (i * W * 3 + j * 3 + k))"
proof -
  have "i * W + j < W * H" using assms by (intro pixel_lt) auto
  then have "(i * W + j) * 3 + k < W * H * 3" using \<open>k < 3\<close> by (rule three_lt)
  then have hi: "i * W * 3 + j * 3 + k < int (length d)"
    using len by (simp add: algebra_simps)
  have "0 \<le> i * W" using assms by simp
  then have lo: "0 \<le> i * W * 3 + j * 3 + k" using assms by simp
  have off: "i * (W * 3) + j * 3 + k = i * W * 3 + j * 3 + k" by simp
  from hi lo have "nat (i * W * 3 + j * 3 + k) < length d" by linarith
  then show ?thesis
    using assms(1-6) hi lo by (simp add: getitem_def item_offset_def off)
qed

text \<open>
  C1 (amended). For every frame with a non-negative height, a non-negative width whose
  triple still fits a C \<^verbatim>\<open>int\<close>, and a data buffer of length \<open>width * height * 3\<close>,
  \<open>frame_to_numpy\<close> returns an array of shape \<open>(height, width, 3)\<close> and strides
  \<open>(width * 3, 3, 1)\<close> that owns exactly \<open>width * height * 3\<close> bytes, and its item at
  \<open>(i, j, k)\<close> is byte \<open>i * width * 3 + j * 3 + k\<close> of the frame's data: row-major packed
  RGB without padding.
\<close>

theorem frame_to_numpy_layout:
  assumes "0 \<le> sint (width frame)" and "0 \<le> sint (height frame)"
    and "sint (width frame) * 3 \<le> 2147483647"
    and "int (length (data frame)) = sint (width frame) * sint (height frame) * 3"
  shows "\<exists>a. frame_to_numpy frame = Inr a \<and>
           shape a = (sint (height frame), sint (width frame), 3) \<and>
           strides a = (sint (width frame) * 3, 3, 1) \<and>
           length (mem a) = length (data frame) \<and>
           (\<forall>i j k. 0 \<le> i \<and> i < sint (height frame) \<and> 0 \<le> j \<and> j < sint (width frame) \<and>
                    0 \<le> k \<and> k < 3 \<longrightarrow>
              getitem a i j k = Some (data frame ! nat (i * sint (width frame) * 3 + j * 3 + k)))"
proof -
  let ?a = "\<lparr>shape = (sint (height frame), sint (width frame), 3),
             strides = (sint (width frame) * 3, 3, 1), mem = map Some (data frame)\<rparr>"
  have run: "frame_to_numpy frame = Inr ?a"
    using assms by (rule frame_to_numpy_packed)
  have "getitem ?a i j k = Some (data frame ! nat (i * sint (width frame) * 3 + j * 3 + k))"
    if "0 \<le> i \<and> i < sint (height frame) \<and> 0 \<le> j \<and> j < sint (width frame) \<and> 0 \<le> k \<and> k < 3"
    for i j k
    using that assms(4) by (intro getitem_packed) auto
  with run show ?thesis by simp
qed

theorem frame_to_numpy_layout_witness:
  "\<exists>a. frame_to_numpy small_frame = Inr a \<and> shape a = (2, 2, 3) \<and> strides a = (6, 3, 1) \<and>
        length (mem a) = 12 \<and> getitem a 1 0 2 = Some 9"
proof -
  have "\<exists>a. frame_to_numpy small_frame = Inr a \<and>
           shape a = (sint (height small_frame), sint (width small_frame), 3) \<and>
           strides a = (sint (width small_frame) * 3, 3, 1) \<and>
           length (mem a) = length (data small_frame) \<and>
           (\<forall>i j k. 0 \<le> i \<and> i < sint (height small_frame) \<and> 0 \<le> j \<and> j < sint (width small_frame) \<and>
                    0 \<le> k \<and> k < 3 \<longrightarrow>
              getitem a i j k = Some (data small_frame ! nat (i * sint (width small_frame) * 3 + j * 3 + k)))"
    using frame_to_numpy_layout [of small_frame] by (simp add: small_frame_def)
  then obtain a where a: "frame_to_numpy small_frame = Inr a"
    "shape a = (sint (height small_frame), sint (width small_frame), 3)"
    "strides a = (sint (width small_frame) * 3, 3, 1)"
    "length (mem a) = length (data small_frame)"
    and item: "\<And>i j k. 0 \<le> i \<and> i < sint (height small_frame) \<and> 0 \<le> j \<and> j < sint (width small_frame) \<and>
                    0 \<le> k \<and> k < 3 \<Longrightarrow>
              getitem a i j k = Some (data small_frame ! nat (i * sint (width small_frame) * 3 + j * 3 + k))"
    by blast
  have "getitem a 1 0 2 = Some 9"
    using item [of 1 0 2] by (simp add: small_frame_def)
  with a show ?thesis by (simp add: small_frame_def)
qed

text \<open>
  The claim as stated, for every frame whose data has length \<open>width * height * 3\<close>, fails
  on two frames that carry exactly that many bytes (none). With width 1000000000 and
  height 0 the stride expression \<^verbatim>\<open>frame.width * 3\<close> leaves the range of \<^verbatim>\<open>int\<close>: the array
  gets the first stride -1294967296, not 3000000000. With width -1 and height 0 no array
  is exposed at all: its constructor refuses the negative dimension.
\<close>

theorem frame_to_numpy_layout_counterexample:
  "int (length (data wide_frame)) = sint (width wide_frame) * sint (height wide_frame) * 3 \<and>
   sint (width wide_frame) * 3 = 3000000000 \<and>
   frame_to_numpy wide_frame =
     Inr \<lparr>shape = (0, 1000000000, 3), strides = (- 1294967296, 3, 1), mem = []\<rparr> \<and>
   int (length (data negative_frame)) = sint (width negative_frame) * sint (height negative_frame) * 3 \<and>
   frame_to_numpy negative_frame = Inl ValueError"
  by (simp add: frame_to_numpy_def array_t_def wide_frame_def negative_frame_def loop_i.simps)

subsection \<open>Every access of the copy loops is in bounds\<close>




section \<open>Properties of the binding layer\<close>

subsection \<open>The store\<close>

lemma deref_append_old: "p < length h \<Longrightarrow> deref (h @ xs) p = deref h p"
  by (simp add: deref_def nth_append)

lemma deref_append_new: "deref (h @ [x]) (length h) = Some x"
  by (simp add: deref_def)

lemma deref_beyond: "deref h (length h) = None"
  by (simp add: deref_def)

lemma deref_update_other: "p \<noteq> r \<Longrightarrow> deref (h[r := x]) p = deref h p"
  by (simp add: deref_def)

lemma deref_update_same: "r < length h \<Longrightarrow> deref (h[r := x]) r = Some x"
  by (simp add: deref_def)

lemma deref_Some_lt: "deref h r = Some x \<Longrightarrow> r < length h"
  by (simp add: deref_def split: if_splits)

lemma Frame_data_Inr:
  assumes "Frame_data h self = (h', Inr r)"
  obtains f a where "deref h self = Some (PyFrame f)" and "frame_to_numpy f = Inr a"
    and "h' = h @ [PyArray a]" and "r = length h"
  using assms
  by (auto simp: Frame_data_def split: option.splits pyobj.splits sum.splits)

lemma Frame_data_frame:
  assumes "deref h self = Some (PyFrame f)" and "frame_to_numpy f = Inr a"
  shows "Frame_data h self = (h @ [PyArray a], Inr (length h))"
  using assms by (simp add: Frame_data_def)

lemma ndarray_setitem_owning:
  assumes "deref h r = Some (PyArray a)" and "p \<noteq> r"
  shows "deref (fst (ndarray_setitem h r ijk v)) p = deref h p"
  using assms
  by (auto simp: ndarray_setitem_def deref_update_other split: sum.splits prod.splits)

text \<open>An assignment through a view does change the object it lies over: in the store
  with a view over the frame at address 0, assigning item \<open>(0, 0, 0)\<close> of the view changes
  the first byte of the frame.\<close>

lemma ndarray_setitem_view_changes_base:
  "ndarray_setitem shared_heap 1 (0, 0, 0) 255
     = ([PyFrame (small_frame\<lparr>data := [255, 2, 3, 4, 5, 6, 7, 8, 9, 10, 11, 12]\<rparr>),
         PyArrayView 0 (2, 2, 3) (6, 3, 1)], Inr ())"
  by (simp add: ndarray_setitem_def shared_heap_def deref_def stored_bytes_def store_byte_def
      small_frame_def)

text \<open>
  C9 (amended). For every frame with a non-negative width and height, a width whose
  triple fits a C \<^verbatim>\<open>int\<close>, and exactly \<open>width * height * 3\<close> bytes of data, every read of
  the \<open>data\<close> property returns a fresh owned copy of the frame's bytes: a new array
  object, at an address that named nothing before, that owns its memory and holds
  exactly those bytes. And for every frame, whenever the copy runs to its end with
  every access in bounds, so that the read returns the array, that array is a new object
  that owns its memory and is no view over the frame or over a reader's buffer; the call
  changes no object that existed before, an item assignment to the array changes no
  object that existed before, the frame's bytes and the readers' buffers included, and a
  second read returns yet another object.
\<close>

theorem Frame_data_fresh_copy:
  assumes "deref h self = Some (PyFrame f)"
  shows "(0 \<le> sint (width f) \<and> 0 \<le> sint (height f) \<and> sint (width f) * 3 \<le> 2147483647 \<and>
          int (length (data f)) = sint (width f) * sint (height f) * 3 \<longrightarrow>
            Frame_data h self
              = (h @ [PyArray \<lparr>shape = (sint (height f), sint (width f), 3),
                               strides = (sint (width f) * 3, 3, 1),
                               mem = map Some (data f)\<rparr>], Inr (length h))) \<and>
         (\<forall>h' r. Frame_data h self = (h', Inr r) \<longrightarrow>
            r = length h \<and> deref h r = None \<and> r \<noteq> self \<and>
            (\<exists>a. h' = h @ [PyArray a] \<and> frame_to_numpy f = Inr a) \<and>
            (\<forall>p. p < length h \<longrightarrow> deref h' p = deref h p) \<and>
            (\<forall>p ijk v. p < length h \<longrightarrow>
               deref (fst (ndarray_setitem h' r ijk v)) p = deref h p) \<and>
            (\<exists>a. Frame_data h' self = (h' @ [PyArray a], Inr (Suc r))))"
proof -
  from assms have lt: "self < length h" by (rule deref_Some_lt)
  have copy: "Frame_data h self
      = (h @ [PyArray \<lparr>shape = (sint (height f), sint (width f), 3),
                       strides = (sint (width f) * 3, 3, 1),
                       mem = map Some (data f)\<rparr>], Inr (length h))"
    if "0 \<le> sint (width f) \<and> 0 \<le> sint (height f) \<and> sint (width f) * 3 \<le> 2147483647 \<and>
        int (length (data f)) = sint (width f) * sint (height f) * 3"
  proof -
    from that have "frame_to_numpy f =
      Inr \<lparr>shape = (sint (height f), sint (width f), 3), strides = (sint (width f) * 3, 3, 1),
           mem = map Some (data f)\<rparr>"
      by (intro frame_to_numpy_packed) auto
    with assms show ?thesis by (rule Frame_data_frame)
  qed
  have fresh: "r = length h \<and> deref h r = None \<and> r \<noteq> self \<and>
            (\<exists>a. h' = h @ [PyArray a] \<and> frame_to_numpy f = Inr a) \<and>
            (\<forall>p. p < length h \<longrightarrow> deref h' p = deref h p) \<and>
            (\<forall>p ijk v. p < length h \<longrightarrow>
               deref (fst (ndarray_setitem h' r ijk v)) p = deref h p) \<and>
            (\<exists>a. Frame_data h' self = (h' @ [PyArray a], Inr (Suc r)))"
    if call: "Frame_data h self = (h', Inr r)" for h' r
  proof -
    from call obtain f' a where "deref h self = Some (PyFrame f')"
      and run': "frame_to_numpy f' = Inr a" and h': "h' = h @ [PyArray a]" and r: "r = length h"
      by (rule Frame_data_Inr)
    with assms have run: "frame_to_numpy f = Inr a" by simp
    have none: "deref h r = None" unfolding r by (rule deref_beyond)
    have ne: "r \<noteq> self" using lt r by simp
    have old: "deref h' p = deref h p" if "p < length h" for p
      unfolding h' using that by (rule deref_append_old)
    have new: "deref h' r = Some (PyArray a)" unfolding h' r by (rule deref_append_new)
    have written: "deref (fst (ndarray_setitem h' r ijk v)) p = deref h p"
      if "p < length h" for p ijk v
    proof -
      from that r have "p \<noteq> r" by simp
      with new have "deref (fst (ndarray_setitem h' r ijk v)) p = deref h' p"
        by (rule ndarray_setitem_owning)
      with old [OF that] show ?thesis by simp
    qed
    have "deref h' self = Some (PyFrame f)" using old [OF lt] assms by simp
    then have "Frame_data h' self = (h' @ [PyArray a], Inr (length h'))"
      using run by (rule Frame_data_frame)
    then have again: "\<exists>a. Frame_data h' self = (h' @ [PyArray a], Inr (Suc r))"
      unfolding h' r by auto
    from r none ne h' run old written again show ?thesis by blast
  qed
  from copy fresh show ?thesis by blast
qed

theorem Frame_data_fresh_copy_witness:
  "Frame_data example_heap 1
     = (example_heap @ [PyArray \<lparr>shape = (2, 2, 3), strides = (6, 3, 1),
          mem = [Some 1, Some 2, Some 3, Some 4, Some 5, Some 6, Some 7, Some 8, Some 9,
                 Some 10, Some 11, Some 12]\<rparr>], Inr 3) \<and>
   deref example_heap 3 = None \<and>
   deref (fst (ndarray_setitem (fst (Frame_data example_heap 1)) 3 (0, 0, 0) 255)) 1
     = Some (PyFrame small_frame) \<and>
   deref (fst (ndarray_setitem (fst (Frame_data example_heap 1)) 3 (0, 0, 0) 255)) 0
     = Some (PyReader new_reader) \<and>
   deref (fst (ndarray_setitem (fst (Frame_data example_heap 1)) 3 (0, 0, 0) 255)) 3
     = Some (PyArray \<lparr>shape = (2, 2, 3), strides = (6, 3, 1),
          mem = [Some 255, Some 2, Some 3, Some 4, Some 5, Some 6, Some 7, Some 8, Some 9,
                 Some 10, Some 11, Some 12]\<rparr>)"
proof -
  let ?a = "\<lparr>shape = (2, 2, 3), strides = (6, 3, 1),
          mem = [Some 1, Some 2, Some 3, Some 4, Some 5, Some 6, Some 7, Some 8, Some 9,
                 Some 10, Some 11, Some (12 :: uint8_t)]\<rparr>"
  have start: "deref example_heap 1 = Some (PyFrame small_frame)"
    by (simp add: example_heap_def deref_def)
  note inst = Frame_data_fresh_copy [OF start]
  have wf: "0 \<le> sint (width small_frame) \<and> 0 \<le> sint (height small_frame) \<and>
      sint (width small_frame) * 3 \<le> 2147483647 \<and>
      int (length (data small_frame)) = sint (width small_frame) * sint (height small_frame) * 3"
    by (simp add: small_frame_def)
  have "Frame_data example_heap 1
      = (example_heap @ [PyArray \<lparr>shape = (sint (height small_frame), sint (width small_frame), 3),
                               strides = (sint (width small_frame) * 3, 3, 1),
                               mem = map Some (data small_frame)\<rparr>], Inr (length example_heap))"
    using wf by (rule inst [THEN conjunct1, THEN mp])
  then have call: "Frame_data example_heap 1 = (example_heap @ [PyArray ?a], Inr 3)"
    by (simp add: small_frame_def example_heap_def)
  note part = inst [THEN conjunct2, THEN spec, THEN spec, THEN mp, OF call]
  have fresh: "deref example_heap 3 = None"
    by (rule part [THEN conjunct2, THEN conjunct1])
  have kept: "deref (fst (ndarray_setitem (example_heap @ [PyArray ?a]) 3 ijk v)) p = deref example_heap p"
    if "p < length example_heap" for p ijk v
    using that
    by (rule part [THEN conjunct2, THEN conjunct2, THEN conjunct2, THEN conjunct2, THEN conjunct2,
          THEN conjunct1, THEN spec, THEN spec, THEN spec, THEN mp])
  have frame: "deref (fst (ndarray_setitem (fst (Frame_data example_heap 1)) 3 (0, 0, 0) 255)) 1
     = Some (PyFrame small_frame)"
    unfolding call fst_conv using kept [of 1 "(0, 0, 0)" 255]
    by (simp add: example_heap_def deref_def)
  have reader: "deref (fst (ndarray_setitem (fst (Frame_data example_heap 1)) 3 (0, 0, 0) 255)) 0
     = Some (PyReader new_reader)"
    unfolding call fst_conv using kept [of 0 "(0, 0, 0)" 255]
    by (simp add: example_heap_def deref_def)
  have array: "deref (fst (ndarray_setitem (fst (Frame_data example_heap 1)) 3 (0, 0, 0) 255)) 3
     = Some (PyArray \<lparr>shape = (2, 2, 3), strides = (6, 3, 1),
          mem = [Some 255, Some 2, Some 3, Some 4, Some 5, Some 6, Some 7, Some 8, Some 9,
                 Some 10, Some 11, Some 12]\<rparr>)"
    unfolding call fst_conv
    by (simp add: ndarray_setitem_def deref_def example_heap_def unchecked_set_def
        item_offset_def)
  from call fresh frame reader array show ?thesis by simp
qed

text \<open>
  The claim as stated, a copy of the frame's bytes at every exposure, fails on the frame
  whose \<^verbatim>\<open>width\<close> and \<^verbatim>\<open>height\<close> the caller has set to 1: the frame stores twelve bytes,
  the read of \<open>data\<close> returns, and the array exposed holds three.
\<close>

theorem Frame_data_fresh_copy_counterexample:
  "data cropped_frame = [1, 2, 3, 4, 5, 6, 7, 8, 9, 10, 11, 12] \<and>
   Frame_data [PyFrame cropped_frame] 0
     = ([PyFrame cropped_frame,
         PyArray \<lparr>shape = (1, 1, 3), strides = (3, 3, 1), mem = [Some 1, Some 2, Some 3]\<rparr>],
        Inr 1)"
proof -
  have d: "data cropped_frame = [1, 2, 3, 4, 5, 6, 7, 8, 9, 10, 11, 12]"
    by (simp add: cropped_frame_def small_frame_def)
  have run: "frame_to_numpy cropped_frame
      = Inr \<lparr>shape = (1, 1, 3), strides = (3, 3, 1), mem = [Some 1, Some 2, Some 3]\<rparr>"
    by code_simp
  have "Frame_data [PyFrame cropped_frame] 0
     = ([PyFrame cropped_frame,
         PyArray \<lparr>shape = (1, 1, 3), strides = (3, 3, 1), mem = [Some 1, Some 2, Some 3]\<rparr>],
        Inr 1)"
    by (simp add: Frame_data_def deref_def run)
  with d show ?thesis by simp
qed

subsection \<open>Closing the session\<close>

lemma cleanup_new_reader: "cleanup s = new_reader"
  by (simp add: cleanup_def new_reader_def)

lemma is_open_new_reader: "\<not> is_open new_reader"
  by (simp add: is_open_def new_reader_def)

text \<open>
  C5. \<open>close\<close> is idempotent: closing a closed session, be it one that was just closed or
  a new one, changes nothing; \<open>is_open\<close> is false after one call and after two in a row,
  and two calls in a row leave the state one call leaves. \<open>close\<close> has no error result.
\<close>

theorem close_idempotent:
  "close (close s) = close s \<and> close new_reader = new_reader \<and>
   \<not> is_open (close s) \<and> \<not> is_open (close (close s)) \<and> (close \<circ> close) s = close s"
  by (simp add: close_def cleanup_new_reader is_open_new_reader)

subsection \<open>Opening a file\<close>

lemma open_video_Inl:
  assumes "open_video fs s path = (s', Inl e)"
  shows "s' = s \<or> s' = new_reader"
  using assms
  by (auto simp: open_video_def Let_def cleanup_new_reader split: option.splits)

lemma open_video_Inr:
  assumes "open_video fs s path = (s', Inr md)"
  shows "is_open s' \<and> metadata s' = Some md"
  using assms
  by (auto simp: open_video_def Let_def is_open_def initialize_codec_def
      split: option.splits if_splits)

text \<open>
  C3. A failed \<open>open\<close>, with either error, on a closed session (a new one or one that
  \<open>close\<close> was called on) retains nothing: the state after the call is the state before
  it, every member is as in a new session, and \<open>is_open\<close> is still false.
\<close>

theorem open_video_failure_atomic:
  assumes "s = new_reader \<or> s = close s0"
    and "open_video fs s path = (s', Inl e)"
  shows "s' = s \<and> \<not> is_open s' \<and> s' = new_reader"
proof -
  from assms(1) have closed: "s = new_reader"
    by (auto simp: close_def cleanup_new_reader)
  from assms(2) have "s' = s \<or> s' = new_reader" by (rule open_video_Inl)
  with closed have "s' = new_reader" by auto
  with closed show ?thesis by (simp add: is_open_new_reader)
qed

theorem open_video_failure_atomic_witness:
  "open_video example_fs new_reader ''missing.mp4'' = (new_reader, Inl OpenError) \<and>
   open_video example_fs new_reader ''audio.mp3'' = (new_reader, Inl NoVideoStreamError) \<and>
   open_video example_fs new_reader ''broken.mp4'' = (new_reader, Inl OpenError) \<and>
   \<not> is_open new_reader \<and>
   is_open (fst (open_video example_fs new_reader ''clip.mp4''))"
proof -
  have a: "snd (open_video example_fs new_reader ''missing.mp4'') = Inl OpenError"
    by (simp add: open_video_def example_fs_def)
  have b: "snd (open_video example_fs new_reader ''audio.mp3'') = Inl NoVideoStreamError"
    by (simp add: open_video_def example_fs_def)
  have c: "snd (open_video example_fs new_reader ''broken.mp4'') = Inl OpenError"
    by (simp add: open_video_def example_fs_def initialize_codec_def)
  have d: "is_open (fst (open_video example_fs new_reader ''clip.mp4''))"
    by (simp add: open_video_def example_fs_def example_container_def initialize_codec_def
        is_open_def)
  have "fst (open_video example_fs new_reader p) = new_reader \<and> \<not> is_open new_reader"
    if "snd (open_video example_fs new_reader p) = Inl e" for p e
    using open_video_failure_atomic [of new_reader s0 example_fs p
        "fst (open_video example_fs new_reader p)" e] that
    by (auto simp: prod_eq_iff)
  from this [OF a] this [OF b] this [OF c] a b c d show ?thesis
    by (simp add: prod_eq_iff)
qed

subsection \<open>The scope\<close>

lemma Reader_exit_reader:
  assumes "deref h self = Some (PyReader s)"
  shows "Reader_exit h self et ev tb = (h[self := PyReader (close s)], Inr ())"
  using assms by (simp add: Reader_exit_def)

text \<open>
  C6. Used as a scope, the reader is its own handle: entering returns the address it was
  entered with and changes nothing. Leaving the scope calls \<open>close\<close> whatever the three
  exception arguments are; so after the scope, whether the body returned or raised, the
  object is the reader the body left, closed, and \<open>is_open\<close> is false; the body's
  exception, if any, goes on to the caller.
\<close>

theorem with_reader_closes:
  assumes "deref h mgr = Some (PyReader s)"
    and "deref (fst (body h mgr)) mgr = Some (PyReader s1)"
  shows "Reader_enter h mgr = (h, Inr mgr) \<and>
         Reader_exit (fst (body h mgr)) mgr et ev tb
           = ((fst (body h mgr))[mgr := PyReader (close s1)], Inr ()) \<and>
         with_reader h mgr body = ((fst (body h mgr))[mgr := PyReader (close s1)], snd (body h mgr)) \<and>
         deref (fst (with_reader h mgr body)) mgr = Some (PyReader (close s1)) \<and>
         \<not> is_open (close s1)"
proof -
  have enter: "Reader_enter h mgr = (h, Inr mgr)"
    using assms(1) by (simp add: Reader_enter_def)
  note leave = Reader_exit_reader [OF assms(2)]
  obtain h1 out where b: "body h mgr = (h1, out)" by (cases "body h mgr")
  with assms(2) have "deref h1 mgr = Some (PyReader s1)" by simp
  note leave1 = Reader_exit_reader [OF this]
  have scope: "with_reader h mgr body = ((fst (body h mgr))[mgr := PyReader (close s1)], snd (body h mgr))"
  proof (cases out)
    case (Inl exc)
    with b enter show ?thesis by (simp add: with_reader_def leave1)
  next
    case (Inr v)
    with b enter show ?thesis by (simp add: with_reader_def leave1)
  qed
  have "mgr < length (fst (body h mgr))" using assms(2) by (rule deref_Some_lt)
  then have after: "deref (fst (with_reader h mgr body)) mgr = Some (PyReader (close s1))"
    unfolding scope fst_conv by (rule deref_update_same)
  have "\<not> is_open (close s1)"
    by (simp add: close_def cleanup_new_reader is_open_new_reader)
  with enter scope after show ?thesis by (simp add: leave)
qed

theorem with_reader_closes_witness:
  "Reader_enter example_heap 0 = (example_heap, Inr 0) \<and>
   is_open (new_reader\<lparr>format_ctx := Some example_container\<rparr>) \<and>
   raising_body example_heap 0
     = ([PyReader (new_reader\<lparr>format_ctx := Some example_container\<rparr>), PyFrame small_frame,
         PyVideoMetadata example_md],
        Inl (Raised ''decode failed'')) \<and>
   with_reader example_heap 0 raising_body
     = ([PyReader new_reader, PyFrame small_frame, PyVideoMetadata example_md],
        Inl (Raised ''decode failed'')) \<and>
   \<not> is_open new_reader"
proof -
  let ?s1 = "new_reader\<lparr>format_ctx := Some example_container\<rparr>"
  have start: "deref example_heap 0 = Some (PyReader new_reader)"
    by (simp add: example_heap_def deref_def)
  have body: "raising_body example_heap 0
      = ([PyReader ?s1, PyFrame small_frame, PyVideoMetadata example_md], Inl (Raised ''decode failed''))"
    by (simp add: raising_body_def start) (simp add: example_heap_def)
  then have left: "deref (fst (raising_body example_heap 0)) 0 = Some (PyReader ?s1)"
    by (simp add: deref_def)
  have opened: "is_open ?s1"
    by (simp add: is_open_def)
  have closed: "close ?s1 = new_reader"
    by (simp add: close_def cleanup_new_reader)
  from with_reader_closes [of example_heap 0 new_reader raising_body ?s1 "()" "()" "()", OF start left]
  have "Reader_enter example_heap 0 = (example_heap, Inr 0)"
    and "with_reader example_heap 0 raising_body
      = ((fst (raising_body example_heap 0))[0 := PyReader (close ?s1)], snd (raising_body example_heap 0))"
    and "\<not> is_open (close ?s1)"
    by blast+
  with opened body show ?thesis
    unfolding closed by simp
qed

subsection \<open>Attributes and instances of the metadata\<close>








end
